theory Spec2Isabelle
  imports Complex_Main
begin

section \<open>Numbers, dates and exceptions\<close>

text \<open>
  A pandas float column holds numbers, the two infinities and the missing marker NaN.
  A finite value is modelled by the rational number it denotes; NaN is \<open>None\<close>.
  Arithmetic on finite values is exact in this model.
\<close>

datatype float_val = Fin rat | PInf | NInf

type_synonym float64 = "float_val option"

text \<open>
  A day-resolution \<^verbatim>\<open>Timestamp\<close> is the number of days since 1970-01-01, the unit in
  which pandas counts internally; a timestamp that need not fall on midnight is a
  rational number of days. The two conversions below are the proleptic Gregorian
  calendar that pandas uses: \<open>days_from_civil y m d\<close> is the day number of the
  calendar date, \<open>civil_from_days\<close> the calendar date of a day number. Years run in
  eras of 400 years (146097 days) that start on 1 March.
\<close>

definition days_from_civil :: "int \<Rightarrow> int \<Rightarrow> int \<Rightarrow> int" where
  "days_from_civil y m d =
     (let y' = (if m \<le> 2 then y - 1 else y);
          era = y' div 400;
          yoe = y' mod 400;
          doy = (153 * (if m > 2 then m - 3 else m + 9) + 2) div 5 + d - 1;
          doe = yoe * 365 + yoe div 4 - yoe div 100 + doy
      in era * 146097 + doe - 719468)"

definition civil_from_days :: "int \<Rightarrow> int \<times> int \<times> int" where
  "civil_from_days z =
     (let z' = z + 719468;
          era = z' div 146097;
          doe = z' mod 146097;
          yoe = (doe - doe div 1460 + doe div 36524 - doe div 146096) div 365;
          doy = doe - (365 * yoe + yoe div 4 - yoe div 100);
          mp = (5 * doy + 2) div 153;
          d = doy - (153 * mp + 2) div 5 + 1;
          m = (if mp < 10 then mp + 3 else mp - 9);
          y = yoe + era * 400
      in (if m \<le> 2 then y + 1 else y, m, d))"

text \<open>
  A nanosecond \<^verbatim>\<open>Timestamp\<close> is a signed 64-bit count of nanoseconds, so it reaches
  from 21 September 1677 to 11 April 2262. \<open>timestamp_max\<close> is that bound in days.
\<close>

definition timestamp_max :: rat where
  "timestamp_max = (2 ^ 63 - 1) / 86400000000000"

text \<open>
  Rounding to the nearest integer, ties to the even one. This is the rule of
  \<^verbatim>\<open>Timestamp.round\<close> (a quotient is bumped when the remainder exceeds half the unit, or
  equals it and the quotient is odd) and of \<^verbatim>\<open>round(value, ndigits)\<close>.
\<close>

definition round_half_even :: "rat \<Rightarrow> int" where
  "round_half_even t =
     (let q = \<lfloor>t\<rfloor>; r = t - of_int q
      in if r > 1 / 2 \<or> (r = 1 / 2 \<and> odd q) then q + 1 else q)"

text \<open>\<^verbatim>\<open>int(x)\<close> on a finite float truncates towards zero.\<close>

definition py_int :: "rat \<Rightarrow> int" where
  "py_int x = (if 0 \<le> x then \<lfloor>x\<rfloor> else \<lceil>x\<rceil>)"

text \<open>
  \<^verbatim>\<open>strftime('%Y-%m-%d')\<close> for years 0 to 9999, which cover the range of a pandas
  timestamp: four digits, two digits, two digits.
\<close>

definition digit_char :: "int \<Rightarrow> char" where
  "digit_char n = char_of (48 + nat (n mod 10))"

definition pad2 :: "int \<Rightarrow> string" where
  "pad2 n = [digit_char (n div 10), digit_char n]"

definition pad4 :: "int \<Rightarrow> string" where
  "pad4 n = [digit_char (n div 1000), digit_char (n div 100), digit_char (n div 10), digit_char n]"

definition strftime_ymd :: "int \<Rightarrow> string" where
  "strftime_ymd z =
     (case civil_from_days z of (y, m, d) \<Rightarrow> pad4 y @ ''-'' @ pad2 m @ ''-'' @ pad2 d)"

text \<open>
  The exceptions that leave \<^verbatim>\<open>load_and_prep_data\<close>. An overflow of the timestamp
  range is \<open>OutOfBoundsDatetime\<close> whichever pandas operation reports it.
\<close>

datatype py_exception =
    EmptyDataError | ParserError | IndexError | TypeError | ValueError string
  | OverflowError | DateParseError | OutOfBoundsDatetime

section \<open>src/data_prep.py\<close>

subsection \<open>decimal\_year\_to\_date\<close>

text \<open>
  \<^verbatim>\<open>pd.to_datetime(f'{year}-01-01')\<close> parses the string it is given. A year of four
  digits makes an ISO date, which is 1 January of that year when it lies in the
  timestamp range and is refused otherwise. Any other string goes to the dateutil
  parser, which skips a leading minus sign, takes a number of three or more digits as
  the year, and reads three numbers below 100 by their size: a first number above 31
  is a two-digit year, one above 12 is the day (day, month, year), any other is the
  month (month, day, year), so that year 0 asks for month 0 and fails.
  A two-digit year is placed within fifty years of the year in which the program runs.
\<close>

definition dateutil_current_year :: int where
  "dateutil_current_year = 2026"

definition dateutil_convertyear :: "int \<Rightarrow> int" where
  "dateutil_convertyear yy =
     (let year = yy + dateutil_current_year div 100 * 100
      in if dateutil_current_year + 50 \<le> year then year - 100
         else if year < dateutil_current_year - 50 then year + 100
         else year)"

definition dateutil_small_year :: "int \<Rightarrow> py_exception + int" where
  "dateutil_small_year n =
     (if n = 0 then Inl DateParseError
      else if n \<le> 12 then Inr (days_from_civil (dateutil_convertyear 1) n 1)
      else if n \<le> 31 then Inr (days_from_civil (dateutil_convertyear 1) 1 n)
      else Inr (days_from_civil (dateutil_convertyear n) 1 1))"

definition to_datetime_jan1 :: "int \<Rightarrow> py_exception + int" where
  "to_datetime_jan1 year =
     (if 1678 \<le> year \<and> year \<le> 2262 then Inr (days_from_civil year 1 1)
      else if 10000 \<le> \<bar>year\<bar> then Inl DateParseError
      else if 100 \<le> \<bar>year\<bar> then Inl OutOfBoundsDatetime
      else dateutil_small_year \<bar>year\<bar>)"

text \<open>
  \<^verbatim>\<open>
  year = int(year_decimal)
  rem = year_decimal - year
  date = pd.to_datetime(f'{year}-01-01') + pd.to_timedelta(rem * 365.25, unit='D')
  return date.round('D')
  \<close>
  \<^verbatim>\<open>int\<close> raises on an infinity. The sum and the rounded date must stay inside the
  timestamp range.
\<close>

definition decimal_year_to_date :: "float_val \<Rightarrow> py_exception + int" where
  "decimal_year_to_date year_decimal =
     (case year_decimal of
        PInf \<Rightarrow> Inl OverflowError
      | NInf \<Rightarrow> Inl OverflowError
      | Fin x \<Rightarrow>
          (let year = py_int x;
               rem = x - of_int year
           in case to_datetime_jan1 year of
                Inl e \<Rightarrow> Inl e
              | Inr jan1 \<Rightarrow>
                  (let date = of_int jan1 + rem * (36525 / 100)
                   in if timestamp_max < \<bar>date\<bar> then Inl OutOfBoundsDatetime
                      else if timestamp_max < \<bar>of_int (round_half_even date)\<bar>
                      then Inl OutOfBoundsDatetime
                      else Inr (round_half_even date))))"

subsection \<open>Reading the table\<close>

text \<open>
  The source file is the list of its physical records, each a list of fields.
  \<^verbatim>\<open>pd.read_csv(file_path, header=1)\<close> leaves blank lines out, skips the first remaining
  record, takes the second as the header and the rest as data rows; a data row shorter
  than the header is padded with missing cells. Data rows are taken to be no longer
  than the header.
\<close>

type_synonym csv_file = "string list list"

definition is_blank_line :: "string list \<Rightarrow> bool" where
  "is_blank_line record = (record = [] \<or> record = [[]])"

definition read_csv_header1 :: "csv_file \<Rightarrow> py_exception + (string list \<times> string list list)" where
  "read_csv_header1 file =
     (case filter (\<lambda>record. \<not> is_blank_line record) file of
        [] \<Rightarrow> Inl EmptyDataError
      | [title] \<Rightarrow> Inl ParserError
      | title # header # rows \<Rightarrow> Inr (header, rows))"

definition cell :: "string list \<Rightarrow> nat \<Rightarrow> string" where
  "cell row i = (if i < length row then row ! i else [])"

text \<open>
  \<^verbatim>\<open>df_raw.iloc[:, [3, 4]]\<close>: the columns at positions 3 and 4, an \<^verbatim>\<open>IndexError\<close> when the
  table has fewer than five columns.
\<close>

definition iloc_3_4 :: "string list \<times> string list list \<Rightarrow> py_exception + (string \<times> string) list" where
  "iloc_3_4 df_raw =
     (case df_raw of (header, rows) \<Rightarrow>
        if length header < 5 then Inl IndexError
        else Inr (map (\<lambda>row. (cell row 3, cell row 4)) rows))"

text \<open>
  \<^verbatim>\<open>pd.to_numeric(column, errors='coerce')\<close> on one cell. A number is: blanks, an
  optional sign, digits with an optional point and more digits (at least one digit in
  all), an optional exponent (\<open>e\<close> or \<open>E\<close>, an optional sign, digits), blanks. An
  exponent letter without digits is not part of the number. Besides numbers the
  spellings of the infinities are read, in either case of letters. Every other cell,
  the empty one included, becomes NaN.
\<close>

definition is_digit :: "char \<Rightarrow> bool" where
  "is_digit c = (48 \<le> (of_char c :: nat) \<and> (of_char c :: nat) \<le> 57)"

definition is_space :: "char \<Rightarrow> bool" where
  "is_space c = ((of_char c :: nat) = 32 \<or> (9 \<le> (of_char c :: nat) \<and> (of_char c :: nat) \<le> 13))"

definition to_lower :: "char \<Rightarrow> char" where
  "to_lower c =
     (if 65 \<le> (of_char c :: nat) \<and> (of_char c :: nat) \<le> 90
      then char_of ((of_char c :: nat) + 32) else c)"

definition digits_value :: "string \<Rightarrow> nat" where
  "digits_value s = foldl (\<lambda>n c. 10 * n + (of_char c - 48)) 0 s"

definition is_sign :: "string \<Rightarrow> bool" where
  "is_sign s = (s \<noteq> [] \<and> (hd s = CHR ''-'' \<or> hd s = CHR ''+''))"

definition is_minus :: "string \<Rightarrow> bool" where
  "is_minus s = (s \<noteq> [] \<and> hd s = CHR ''-'')"

text \<open>The exponent at the head of a string, and what follows it.\<close>

definition parse_exponent :: "string \<Rightarrow> int \<times> string" where
  "parse_exponent s =
     (if s \<noteq> [] \<and> (hd s = CHR ''e'' \<or> hd s = CHR ''E'') then
        (let body = (if is_sign (tl s) then tl (tl s) else tl s);
             ds = takeWhile is_digit body
         in if ds = [] then (0, s)
            else (if is_minus (tl s) then - int (digits_value ds) else int (digits_value ds),
                  dropWhile is_digit body))
      else (0, s))"

definition scale10 :: "rat \<Rightarrow> int \<Rightarrow> rat" where
  "scale10 x e = (if 0 \<le> e then x * 10 ^ nat e else x / 10 ^ nat (- e))"

definition parse_number :: "string \<Rightarrow> rat option" where
  "parse_number s =
     (let s1 = dropWhile is_space s;
          body = (if is_sign s1 then tl s1 else s1);
          ip = takeWhile is_digit body;
          after_ip = dropWhile is_digit body;
          has_point = (after_ip \<noteq> [] \<and> hd after_ip = CHR ''.'');
          fp = (if has_point then takeWhile is_digit (tl after_ip) else []);
          after_fp = (if has_point then dropWhile is_digit (tl after_ip) else after_ip);
          magnitude = of_nat (digits_value ip) + of_nat (digits_value fp) / 10 ^ length fp;
          rest = dropWhile is_space (snd (parse_exponent after_fp))
      in if (ip = [] \<and> fp = []) \<or> rest \<noteq> [] then None
         else Some (scale10 (if is_minus s1 then - magnitude else magnitude)
                            (fst (parse_exponent after_fp))))"

definition to_numeric :: "string \<Rightarrow> float64" where
  "to_numeric s =
     (case parse_number s of
        Some x \<Rightarrow> Some (Fin x)
      | None \<Rightarrow>
          (let w = map to_lower s
           in if w = ''inf'' \<or> w = ''+inf'' \<or> w = ''infinity'' \<or> w = ''+infinity''
              then Some PInf
              else if w = ''-inf'' \<or> w = ''-infinity'' then Some NInf
              else None))"

subsection \<open>Filling the concentration column\<close>

text \<open>
  \<^verbatim>\<open>Series.ffill()\<close> walks the column from the top and replaces every missing entry by
  the last valid entry seen so far; entries before the first valid one stay missing.
  \<open>ffill_from prev\<close> is the walk with \<open>prev\<close> the carried value.
\<close>

fun ffill_from :: "'a option \<Rightarrow> 'a option list \<Rightarrow> 'a option list" where
  "ffill_from prev [] = []"
| "ffill_from prev (None # xs) = prev # ffill_from prev xs"
| "ffill_from prev (Some v # xs) = Some v # ffill_from (Some v) xs"

definition ffill :: "'a option list \<Rightarrow> 'a option list" where
  "ffill xs = ffill_from None xs"

text \<open>
  \<^verbatim>\<open>Series.bfill()\<close> replaces every missing entry by the next valid entry below it;
  entries after the last valid one stay missing.
\<close>

fun bfill :: "'a option list \<Rightarrow> 'a option list" where
  "bfill [] = []"
| "bfill (Some v # xs) = Some v # bfill xs"
| "bfill (None # xs) = (case bfill xs of [] \<Rightarrow> [None] | y # ys \<Rightarrow> y # y # ys)"

text \<open>Step 4: \<^verbatim>\<open>df['CO2_ppm'] = co2_raw.ffill().bfill()\<close>.\<close>

definition fill_co2 :: "'a option list \<Rightarrow> 'a option list" where
  "fill_co2 co2_raw = bfill (ffill co2_raw)"

subsection \<open>The cleaned frame\<close>

text \<open>
  Steps 3 and 4 on the two selected columns give the frame with the columns
  \<^verbatim>\<open>Date_Decimal\<close>, \<^verbatim>\<open>CO2_Raw_ppm\<close> and \<^verbatim>\<open>CO2_ppm\<close>; a row of it is a triple.
\<close>

definition coerce :: "(string \<times> string) list \<Rightarrow> (float64 \<times> float64) list" where
  "coerce cols = map (\<lambda>(date_cell, co2_cell). (to_numeric date_cell, to_numeric co2_cell)) cols"

definition fill_rows :: "(float64 \<times> float64) list \<Rightarrow> (float64 \<times> float64 \<times> float64) list" where
  "fill_rows df =
     (let co2_raw = map snd df
      in zip (map fst df) (zip co2_raw (fill_co2 co2_raw)))"

text \<open>
  Step 5: \<^verbatim>\<open>df.dropna(subset=['Date_Decimal', 'CO2_ppm'])\<close> keeps the rows in which both
  columns are valid.
\<close>

fun dropna :: "(float64 \<times> float64 \<times> float64) list \<Rightarrow> (float_val \<times> float64 \<times> float_val) list" where
  "dropna [] = []"
| "dropna ((Some date_decimal, co2_raw, Some co2) # rows) = (date_decimal, co2_raw, co2) # dropna rows"
| "dropna (_ # rows) = dropna rows"

text \<open>
  Step 6 adds the \<^verbatim>\<open>Date\<close> column by applying \<^verbatim>\<open>decimal_year_to_date\<close> to the rows in
  order; the first exception ends the function. The result is the frame the function
  returns.
\<close>

record df_row =
  Date_Decimal :: float_val
  CO2_Raw_ppm :: float64
  CO2_ppm :: float_val
  Date :: int

fun add_dates :: "(float_val \<times> float64 \<times> float_val) list \<Rightarrow> py_exception + df_row list" where
  "add_dates [] = Inr []"
| "add_dates ((date_decimal, co2_raw, co2) # rows) =
     (case decimal_year_to_date date_decimal of
        Inl e \<Rightarrow> Inl e
      | Inr date \<Rightarrow>
          (case add_dates rows of
             Inl e \<Rightarrow> Inl e
           | Inr dated \<Rightarrow>
               Inr (\<lparr>Date_Decimal = date_decimal, CO2_Raw_ppm = co2_raw, CO2_ppm = co2,
                     Date = date\<rparr> # dated)))"

definition clean_frame :: "(float64 \<times> float64) list \<Rightarrow> py_exception + df_row list" where
  "clean_frame df = add_dates (dropna (fill_rows df))"

subsection \<open>Month-start frequency\<close>

text \<open>
  Months are numbered \<open>12 * year + (month - 1)\<close>. \<^verbatim>\<open>pd.date_range(start, end, freq='MS')\<close>
  lists the first days of the months from the first month start on or after \<open>start\<close>
  to the last one on or before \<open>end\<close>.
\<close>

definition month_index :: "int \<Rightarrow> int" where
  "month_index z = (case civil_from_days z of (y, m, d) \<Rightarrow> 12 * y + (m - 1))"

definition is_month_start :: "int \<Rightarrow> bool" where
  "is_month_start z = (case civil_from_days z of (y, m, d) \<Rightarrow> d = 1)"

definition month_start :: "int \<Rightarrow> int" where
  "month_start k = days_from_civil (k div 12) (k mod 12 + 1) 1"

definition date_range_MS :: "int \<Rightarrow> int \<Rightarrow> int list" where
  "date_range_MS start end =
     (let first = (if is_month_start start then month_index start else month_index start + 1)
      in map month_start [first..month_index end])"

text \<open>
  \<^verbatim>\<open>Series.asfreq('MS')\<close> on the series indexed by \<^verbatim>\<open>Date\<close>: the new index is the month
  starts between the smallest and the largest date, and the series is reindexed to
  it, so that a month start that is not a date of the series gets NaN. An empty
  series and a series with a repeated date are refused.
\<close>

definition asfreq_MS :: "(int \<times> float_val) list \<Rightarrow> py_exception + (int \<times> float64) list" where
  "asfreq_MS obj =
     (case map fst obj of
        [] \<Rightarrow> Inl TypeError
      | d # ds \<Rightarrow>
          let dti = date_range_MS (fold min ds d) (fold max ds d)
          in if \<not> distinct (d # ds)
             then Inl (ValueError ''cannot reindex on an axis with duplicate labels'')
             else Inr (map (\<lambda>t. (t, map_of obj t)) dti))"

subsection \<open>load\_and\_prep\_data\<close>

text \<open>
  The function returns the pair \<open>(ts, df)\<close>. Its last statement before \<^verbatim>\<open>return\<close>
  prints \<^verbatim>\<open>ts.index.min().strftime('%Y-%m-%d')\<close>; on an empty \<open>ts\<close> the minimum is
  \<^verbatim>\<open>NaT\<close>, whose \<^verbatim>\<open>strftime\<close> raises.
\<close>

definition load_and_prep_data :: "csv_file \<Rightarrow> py_exception + ((int \<times> float64) list \<times> df_row list)" where
  "load_and_prep_data file_path =
     (case read_csv_header1 file_path of
        Inl e \<Rightarrow> Inl e
      | Inr df_raw \<Rightarrow>
          (case iloc_3_4 df_raw of
             Inl e \<Rightarrow> Inl e
           | Inr cols \<Rightarrow>
               (case clean_frame (coerce cols) of
                  Inl e \<Rightarrow> Inl e
                | Inr df \<Rightarrow>
                    (case asfreq_MS (map (\<lambda>row. (Date row, CO2_ppm row)) df) of
                       Inl e \<Rightarrow> Inl e
                     | Inr ts \<Rightarrow>
                         if ts = [] then Inl (ValueError ''NaTType does not support strftime'')
                         else Inr (ts, df)))))"

section \<open>src/main.py\<close>

text \<open>
  \<^verbatim>\<open>class ForecastQuery(BaseModel): steps: int = 12\<close>. The request body either
  carries an integer \<^verbatim>\<open>steps\<close> or leaves the field out.
\<close>

record forecast_query =
  steps :: int

definition ForecastQuery :: "int option \<Rightarrow> forecast_query" where
  "ForecastQuery body_steps = \<lparr>steps = (case body_steps of None \<Rightarrow> 12 | Some n \<Rightarrow> n)\<rparr>"

record forecast_result =
  forecast_start_date :: string
  forecast_end_date :: string
  predictions :: "string \<rightharpoonup> float64"

datatype http_exception = HTTPException (status_code: nat) (detail: string)

text \<open>
  The fitted model is an external object. What the handler uses of it is
  \<^verbatim>\<open>get_forecast(steps=n).predicted_mean\<close>: a series of dated values, or an exception
  with its message.
\<close>

type_synonym fitted_model = "int \<Rightarrow> string + (int \<times> float64) list"

text \<open>\<^verbatim>\<open>round(value, 2)\<close>; NaN and the infinities stay as they are.\<close>

definition round2 :: "float64 \<Rightarrow> float64" where
  "round2 v =
     map_option
       (\<lambda>x. case x of
               Fin r \<Rightarrow> Fin (of_int (round_half_even (r * 100)) / 100)
             | PInf \<Rightarrow> PInf
             | NInf \<Rightarrow> NInf) v"

text \<open>
  The body of the \<^verbatim>\<open>try\<close> after the model call. The dictionary comprehension lets a
  later item overwrite an earlier one with the same key. On an empty series
  \<^verbatim>\<open>index.min()\<close> is \<^verbatim>\<open>NaT\<close> and \<^verbatim>\<open>strftime\<close> raises.
\<close>

definition format_forecast :: "(int \<times> float64) list \<Rightarrow> string + forecast_result" where
  "format_forecast predictions_series =
     (let predictions_dict =
            map_of (rev (map (\<lambda>(date, value). (strftime_ymd date, round2 value))
                             predictions_series))
      in case map fst predictions_series of
           [] \<Rightarrow> Inl ''NaTType does not support strftime''
         | d # ds \<Rightarrow>
             Inr \<lparr>forecast_start_date = strftime_ymd (fold min ds d),
                  forecast_end_date = strftime_ymd (fold max ds d),
                  predictions = predictions_dict\<rparr>)"

text \<open>
  \<^verbatim>\<open>model_fit.get_forecast(steps=n)\<close>: one call of the model's forecast operation. It
  yields the model's answer and adds the call to the list of the calls made so far.
\<close>

definition model_get_forecast ::
    "fitted_model \<Rightarrow> int \<Rightarrow> int list \<Rightarrow> (string + (int \<times> float64) list) \<times> int list" where
  "model_get_forecast m n calls = (m n, calls @ [n])"

text \<open>
  \<open>get_forecast model_fit query\<close>: \<open>model_fit\<close> is the global reference (\<open>None\<close>
  until the model is loaded). The result pairs the list of the \<open>steps\<close> arguments with
  which the model's forecast operation was called and the handler's outcome.
\<close>

definition get_forecast ::
    "fitted_model option \<Rightarrow> forecast_query \<Rightarrow> int list \<times> (http_exception + forecast_result)" where
  "get_forecast model_fit query =
     (case model_fit of
        None \<Rightarrow> ([], Inl (HTTPException 503 ''Model is not loaded or ready.''))
      | Some m \<Rightarrow>
          (case model_get_forecast m (steps query) [] of
             (forecast, calls) \<Rightarrow>
               (calls,
                (case forecast of
                   Inl e \<Rightarrow> Inl (HTTPException 500 (''Prediction error: '' @ e))
                 | Inr predictions_series \<Rightarrow>
                     (case format_forecast predictions_series of
                        Inl e \<Rightarrow> Inl (HTTPException 500 (''Prediction error: '' @ e))
                      | Inr result \<Rightarrow> Inr result)))))"

section \<open>Properties of the fills\<close>

lemma length_ffill_from [simp]: "length (ffill_from p xs) = length xs"
  by (induction p xs rule: ffill_from.induct) simp_all

lemma length_bfill [simp]: "length (bfill xs) = length xs"
  by (induction xs rule: bfill.induct) (auto split: list.splits)

lemma ffill_from_Some_valid: "None \<notin> set (ffill_from (Some a) xs)"
proof (induction xs arbitrary: a)
  case Nil
  show ?case by simp
next
  case (Cons x xs)
  show ?case using Cons.IH by (cases x) auto
qed

lemma ffill_from_last_valid:
  "Some v \<in> set xs \<Longrightarrow> last (ffill_from p xs) \<noteq> None"
proof (induction xs arbitrary: p)
  case Nil
  then show ?case by simp
next
  case (Cons x xs)
  show ?case
  proof (cases x)
    case None
    with Cons.prems have in_tl: "Some v \<in> set xs" by simp
    then have "xs \<noteq> []" by auto
    then have "ffill_from p xs \<noteq> []" by (metis length_ffill_from length_0_conv)
    with Cons.IH [OF in_tl, of p] None show ?thesis by simp
  next
    case (Some a)
    have "None \<notin> set (ffill_from p (x # xs))"
      using Some ffill_from_Some_valid [of a xs] by simp
    moreover have "ffill_from p (x # xs) \<noteq> []" using Some by simp
    ultimately show ?thesis by (metis last_in_set)
  qed
qed

lemma bfill_None_iff: "None \<in> set (bfill zs) \<longleftrightarrow> zs \<noteq> [] \<and> last zs = None"
proof (induction zs rule: bfill.induct)
  case 1
  show ?case by simp
next
  case (2 v xs)
  then show ?case by auto
next
  case (3 xs)
  show ?case
  proof (cases "bfill xs")
    case Nil
    then have "xs = []" by (metis length_bfill length_0_conv)
    with Nil show ?thesis by simp
  next
    case (Cons y ys)
    then have "xs \<noteq> []" by auto
    with 3 Cons show ?thesis by auto
  qed
qed

lemma fill_co2_no_missing:
  assumes "Some v \<in> set xs"
  shows "None \<notin> set (fill_co2 xs)"
  using ffill_from_last_valid [OF assms, of None]
  by (simp add: fill_co2_def ffill_def bfill_None_iff)

lemma ffill_from_append:
  "\<exists>p'. ffill_from p (pre @ ys) = ffill_from p pre @ ffill_from p' ys"
proof (induction pre arbitrary: p)
  case Nil
  show ?case by auto
next
  case (Cons x pre)
  show ?case
  proof (cases x)
    case None
    with Cons.IH [of p] show ?thesis by auto
  next
    case (Some a)
    with Cons.IH [of "Some a"] show ?thesis by auto
  qed
qed

lemma drop_bfill_append: "drop (length F) (bfill (F @ zs)) = bfill zs"
proof (induction F)
  case Nil
  show ?case by simp
next
  case (Cons x F)
  show ?case
  proof (cases x)
    case None
    show ?thesis
    proof (cases "bfill (F @ zs)")
      case Nil
      then have "F @ zs = []" by (metis length_bfill length_0_conv)
      with None show ?thesis by simp
    next
      case (Cons y ys)
      with None Cons.IH show ?thesis by simp
    qed
  next
    case (Some a)
    with Cons.IH show ?thesis by simp
  qed
qed

lemma fill_co2_after_valid:
  "fill_co2 (pre @ Some a # None # post) ! Suc (length pre) = Some a"
proof -
  obtain p' where split:
    "ffill_from None (pre @ Some a # None # post) =
       ffill_from None pre @ ffill_from p' (Some a # None # post)"
    using ffill_from_append by blast
  let ?F = "ffill_from None pre"
  let ?zs = "Some a # Some a # ffill_from (Some a) post"
  have filled: "fill_co2 (pre @ Some a # None # post) = bfill (?F @ ?zs)"
    using split by (simp add: fill_co2_def ffill_def)
  have "bfill (?F @ ?zs) ! (length ?F + 1) = drop (length ?F) (bfill (?F @ ?zs)) ! 1"
    by simp
  also have "drop (length ?F) (bfill (?F @ ?zs)) = bfill ?zs"
    by (rule drop_bfill_append)
  also have "bfill ?zs ! 1 = Some a"
    by simp
  finally show ?thesis using filled by simp
qed

lemma ffill_from_valid: "None \<notin> set xs \<Longrightarrow> ffill_from p xs = xs"
proof (induction xs arbitrary: p)
  case Nil
  show ?case by simp
next
  case (Cons x xs)
  then show ?case by (cases x) auto
qed

lemma bfill_valid: "None \<notin> set xs \<Longrightarrow> bfill xs = xs"
proof (induction xs)
  case Nil
  show ?case by simp
next
  case (Cons x xs)
  then show ?case by (cases x) auto
qed

lemma fill_co2_single_gap:
  assumes "None \<notin> set pre" and "None \<notin> set post"
  shows "fill_co2 (pre @ Some a # None # Some b # post) = pre @ Some a # Some a # Some b # post"
proof -
  obtain p' where
    "ffill_from None (pre @ Some a # None # Some b # post) =
       ffill_from None pre @ ffill_from p' (Some a # None # Some b # post)"
    using ffill_from_append by blast
  then have "ffill (pre @ Some a # None # Some b # post) = pre @ Some a # Some a # Some b # post"
    using assms by (simp add: ffill_def ffill_from_valid)
  moreover have "None \<notin> set (pre @ Some a # Some a # Some b # post)"
    using assms by simp
  ultimately show ?thesis
    using bfill_valid [of "pre @ Some a # Some a # Some b # post"]
    by (simp add: fill_co2_def)
qed

text \<open>
  Claim C5. In a concentration column whose only missing entry lies between the valid
  values \<open>a\<close> and \<open>b\<close>, forward fill followed by backward fill leaves no missing
  entry and puts \<open>a\<close>, the preceding value, into the gap. Whatever else the column
  holds, a missing entry directly below a valid one receives that value. A column
  with at least one valid value has no missing entry after the two fills.
\<close>

theorem fill_co2_gap_takes_preceding_value:
  fixes pre post pre' post' xs :: "'a option list"
  shows "(None \<notin> set pre \<and> None \<notin> set post \<longrightarrow>
      fill_co2 (pre @ Some a # None # Some b # post) = pre @ Some a # Some a # Some b # post)
   \<and> fill_co2 (pre' @ Some a' # None # post') ! Suc (length pre') = Some a'
   \<and> (Some v \<in> set xs \<longrightarrow> None \<notin> set (fill_co2 xs))"
  using fill_co2_single_gap [of pre post a b] fill_co2_after_valid [of pre' a' post']
    fill_co2_no_missing [of v xs]
  by blast

text \<open>The three parts of C5 on concrete columns.\<close>

theorem fill_co2_gap_takes_preceding_value_witness:
  "fill_co2 [Some 1, Some 2, None, Some 3, Some (4 :: int)] = [Some 1, Some 2, Some 2, Some 3, Some 4]
   \<and> fill_co2 [None, Some 2, None, None, Some (3 :: int)] ! 2 = Some 2
   \<and> None \<notin> set (fill_co2 [None, Some (5 :: int), None])"
  using fill_co2_gap_takes_preceding_value
    [where pre = "[Some 1]" and post = "[Some 4]" and a = 2 and b = 3
       and pre' = "[None]" and a' = 2 and post' = "[None, Some 3]"
       and v = "5 :: int" and xs = "[None, Some 5, None]"]
  by (simp add: numeral_2_eq_2)

section \<open>Properties of the date conversion\<close>

lemma div_succ:
  fixes r k :: int
  assumes "1 < k"
  shows "(r + 1) div k = r div k + (if r mod k = k - 1 then 1 else 0)"
proof -
  have "(r + 1) div k = r div k + 1 div k + (r mod k + 1 mod k) div k"
    by (rule div_add1_eq)
  also have "1 div k = 0" using assms by simp
  also have "1 mod k = 1" using assms by simp
  finally have step: "(r + 1) div k = r div k + (r mod k + 1) div k" by simp
  have range: "0 \<le> r mod k" "r mod k < k" using assms by simp_all
  show ?thesis
  proof (cases "r mod k = k - 1")
    case True
    then have "(r mod k + 1) div k = 1" using assms by simp
    with step True show ?thesis by simp
  next
    case False
    with range have "r mod k + 1 < k" by simp
    then have "(r mod k + 1) div k = 0" using range by simp
    with step False show ?thesis by simp
  qed
qed

lemma leap_step:
  fixes r :: int
  shows "(r + 1) div 100 - r div 100 \<le> (r + 1) div 4 - r div 4"
proof -
  have d4: "(r + 1) div 4 = r div 4 + (if r mod 4 = 3 then 1 else 0)"
    using div_succ [of 4 r] by simp
  have d100: "(r + 1) div 100 = r div 100 + (if r mod 100 = 99 then 1 else 0)"
    using div_succ [of 100 r] by simp
  have "r mod 4 = r mod 100 mod 4"
    by (simp add: mod_mod_cancel)
  then have "r mod 100 = 99 \<Longrightarrow> r mod 4 = 3" by simp
  with d4 d100 show ?thesis by (simp split: if_splits)
qed

lemma jan1_formula:
  "days_from_civil y 1 1 = ((y - 1) div 400) * 146097 + ((y - 1) mod 400) * 365
      + ((y - 1) mod 400) div 4 - ((y - 1) mod 400) div 100 - 719162"
  by (simp add: days_from_civil_def Let_def)

text \<open>A calendar year has at least 365 days.\<close>

lemma year_length_ge: "days_from_civil y 1 1 + 365 \<le> days_from_civil (y + 1) 1 1"
proof -
  define q where "q = (y - 1) div 400"
  define r where "r = (y - 1) mod 400"
  have r_range: "0 \<le> r" "r < 400" by (simp_all add: r_def)
  have y_eq: "y = 400 * q + r + 1" by (simp add: q_def r_def)
  have old: "days_from_civil y 1 1 = q * 146097 + r * 365 + r div 4 - r div 100 - 719162"
    unfolding jan1_formula q_def r_def by simp
  show ?thesis
  proof (cases "r = 399")
    case True
    then have "y = 400 * (q + 1)" using y_eq by simp
    then have "days_from_civil (y + 1) 1 1 = (q + 1) * 146097 - 719162"
      unfolding jan1_formula by simp
    with old True show ?thesis by simp
  next
    case False
    with r_range have r1: "0 \<le> r + 1" "r + 1 < 400" by simp_all
    have "y = (r + 1) + q * 400" using y_eq by simp
    then have dm: "y div 400 = q" "y mod 400 = r + 1"
      using r1 by simp_all
    have new: "days_from_civil (y + 1) 1 1 =
        q * 146097 + (r + 1) * 365 + (r + 1) div 4 - (r + 1) div 100 - 719162"
      unfolding jan1_formula using dm by simp
    from old new leap_step [of r] show ?thesis by (simp add: algebra_simps)
  qed
qed

lemma round_half_even_nearest: "\<bar>of_int (round_half_even t) - t\<bar> \<le> 1 / 2"
proof -
  have "of_int \<lfloor>t\<rfloor> \<le> t" "t < of_int \<lfloor>t\<rfloor> + 1" by linarith+
  then show ?thesis by (auto simp: round_half_even_def Let_def)
qed

lemma round_half_even_lower:
  assumes "of_int a \<le> t"
  shows "a \<le> round_half_even t"
proof -
  from assms have "a \<le> \<lfloor>t\<rfloor>" by (simp add: le_floor_iff)
  then show ?thesis by (auto simp: round_half_even_def Let_def)
qed

lemma round_half_even_upper:
  assumes "t < of_int b + 1 / 2"
  shows "round_half_even t \<le> b"
proof (cases "\<lfloor>t\<rfloor> < b")
  case True
  then show ?thesis by (auto simp: round_half_even_def Let_def)
next
  case False
  have "\<lfloor>t\<rfloor> \<le> b" using assms by (simp add: floor_le_iff)
  with False have eq: "\<lfloor>t\<rfloor> = b" by simp
  with assms have "t - of_int \<lfloor>t\<rfloor> < 1 / 2" by simp
  with eq show ?thesis by (auto simp: round_half_even_def Let_def)
qed


text \<open>Later years start later.\<close>

lemma jan1_mono:
  assumes "a \<le> b"
  shows "days_from_civil a 1 1 \<le> days_from_civil b 1 1"
proof -
  have step: "days_from_civil a 1 1 \<le> days_from_civil (a + int n) 1 1" for n
  proof (induction n)
    case 0
    show ?case by simp
  next
    case (Suc n)
    have "days_from_civil (a + int n) 1 1 \<le> days_from_civil (a + int n + 1) 1 1"
      using year_length_ge [of "a + int n"] by simp
    moreover have "a + int (Suc n) = a + int n + 1" by simp
    ultimately show ?case using Suc by (simp only: order_trans)
  qed
  from assms have "b = a + int (nat (b - a))" by simp
  with step [of "nat (b - a)"] show ?thesis by simp
qed

lemma jan1_1678: "days_from_civil 1678 1 1 = - 106650"
  by code_simp

lemma jan1_2262: "days_from_civil 2262 1 1 = 106651"
  by code_simp

lemma timestamp_max_bounds: "106751 < timestamp_max" "timestamp_max < 106752"
  by (simp_all add: timestamp_max_def)

text \<open>
  Claim C4, as stated, covers every positive fractional year. The year string is
  parsed, not computed with: 2300.0849 lies outside the timestamp range and raises,
  a fractional year below one makes the string \<^verbatim>\<open>0-01-01\<close> and raises, and 99.5 is read
  as the two-digit year 1999 and comes out as 3 July 1999, far from the year 99.
\<close>

theorem decimal_year_to_date_outside_range:
  "decimal_year_to_date (Fin (23000849 / 10000)) = Inl OutOfBoundsDatetime
   \<and> decimal_year_to_date (Fin (1 / 2)) = Inl DateParseError
   \<and> decimal_year_to_date (Fin (995 / 10)) = Inr (days_from_civil 1999 7 3)
   \<and> days_from_civil 100 1 1 < days_from_civil 1999 7 3"
proof -
  have "decimal_year_to_date (Fin (23000849 / 10000)) = Inl OutOfBoundsDatetime"
    by code_simp
  moreover have "decimal_year_to_date (Fin (1 / 2)) = Inl DateParseError"
    by code_simp
  moreover have "decimal_year_to_date (Fin (995 / 10)) = Inr (days_from_civil 1999 7 3)"
    by code_simp
  moreover have "days_from_civil 100 1 1 < days_from_civil 1999 7 3"
    by code_simp
  ultimately show ?thesis by blast
qed

text \<open>
  Claim C4, amended. For a fractional year \<open>y\<close> whose year \<open>\<lfloor>y\<rfloor>\<close> lies between 1678
  and 2261, the years of four digits that fit the timestamp range as a whole, the
  function returns a date: it adds the fractional part of \<open>y\<close>, scaled by 365.25 days,
  to 1 January of the year \<open>\<lfloor>y\<rfloor>\<close> and rounds, so that the result is a whole day at most
  half a day away from that sum, and it lies between 1 January of \<open>\<lfloor>y\<rfloor>\<close> and
  1 January of the next year, both ends included.
\<close>

theorem decimal_year_to_date_within_year:
  assumes "1678 \<le> \<lfloor>y\<rfloor>" and "\<lfloor>y\<rfloor> \<le> 2261"
  shows "\<exists>date. decimal_year_to_date (Fin y) = Inr date
       \<and> date = round_half_even
                  (of_int (days_from_civil \<lfloor>y\<rfloor> 1 1) + (y - of_int \<lfloor>y\<rfloor>) * (36525 / 100))
       \<and> \<bar>of_int date -
            (of_int (days_from_civil \<lfloor>y\<rfloor> 1 1) + (y - of_int \<lfloor>y\<rfloor>) * (36525 / 100))\<bar> \<le> 1 / 2
       \<and> days_from_civil \<lfloor>y\<rfloor> 1 1 \<le> date
       \<and> date \<le> days_from_civil (\<lfloor>y\<rfloor> + 1) 1 1"
proof -
  let ?J = "days_from_civil \<lfloor>y\<rfloor> 1 1"
  let ?rem = "y - of_int \<lfloor>y\<rfloor>"
  let ?t = "of_int ?J + ?rem * (36525 / 100) :: rat"
  let ?r = "round_half_even ?t"
  have pos: "0 \<le> y" using assms(1) by (simp add: le_floor_iff)
  have year: "py_int y = \<lfloor>y\<rfloor>" using pos by (simp add: py_int_def)
  have parse: "to_datetime_jan1 \<lfloor>y\<rfloor> = Inr ?J"
    using assms by (simp add: to_datetime_jan1_def)
  have rem: "0 \<le> ?rem" "?rem < 1" by linarith+
  have lo: "of_int ?J \<le> ?t" using rem by simp
  have "?rem * (36525 / 100) < 36525 / 100" using rem by simp
  then have t_hi: "?t < of_int (?J + 365) + 1 / 2" by simp
  then have "?r \<le> ?J + 365" by (rule round_half_even_upper)
  with year_length_ge [of "\<lfloor>y\<rfloor>"] have hi: "?r \<le> days_from_civil (\<lfloor>y\<rfloor> + 1) 1 1"
    by simp
  have r_lo: "?J \<le> ?r" by (rule round_half_even_lower [OF lo])
  have J_lo: "- 106650 \<le> ?J"
    using jan1_mono [OF assms(1)] by (simp add: jan1_1678)
  have "\<lfloor>y\<rfloor> + 1 \<le> 2262" using assms(2) by simp
  then have next_hi: "days_from_civil (\<lfloor>y\<rfloor> + 1) 1 1 \<le> 106651"
    using jan1_mono [of "\<lfloor>y\<rfloor> + 1" 2262] by (simp add: jan1_2262)
  with year_length_ge [of "\<lfloor>y\<rfloor>"] have J_hi: "?J \<le> 106286" by simp
  have "- 106650 \<le> ?t" using lo J_lo by linarith
  moreover have "?t < 106652" using t_hi J_hi by linarith
  ultimately have "\<bar>?t\<bar> \<le> 106751" by (simp add: abs_le_iff)
  then have in_range: "\<not> timestamp_max < \<bar>?t\<bar>"
    using timestamp_max_bounds(1) by linarith
  have "- 106650 \<le> ?r" "?r \<le> 106651" using r_lo J_lo hi next_hi by linarith+
  then have "\<bar>of_int ?r :: rat\<bar> \<le> 106751" by (simp add: abs_le_iff)
  then have rounded_in_range: "\<not> timestamp_max < \<bar>of_int ?r\<bar>"
    using timestamp_max_bounds(1) by linarith
  have "decimal_year_to_date (Fin y) = Inr ?r"
    using year parse in_range rounded_in_range
    by (simp add: decimal_year_to_date_def Let_def)
  with r_lo hi round_half_even_nearest [of ?t] show ?thesis by simp
qed

text \<open>C4 at 2023.5, which falls on 3 July 2023.\<close>

theorem decimal_year_to_date_within_year_witness:
  "1678 \<le> \<lfloor>20235 / 10 :: rat\<rfloor> \<and> \<lfloor>20235 / 10 :: rat\<rfloor> \<le> 2261
   \<and> decimal_year_to_date (Fin (20235 / 10)) = Inr (days_from_civil 2023 7 3)
   \<and> days_from_civil 2023 1 1 \<le> days_from_civil 2023 7 3
   \<and> days_from_civil 2023 7 3 \<le> days_from_civil 2024 1 1"
proof -
  have fl: "\<lfloor>20235 / 10 :: rat\<rfloor> = 2023" by code_simp
  have range: "1678 \<le> \<lfloor>20235 / 10 :: rat\<rfloor>" "\<lfloor>20235 / 10 :: rat\<rfloor> \<le> 2261"
    unfolding fl by simp_all
  have val: "decimal_year_to_date (Fin (20235 / 10)) = Inr (days_from_civil 2023 7 3)"
    by code_simp
  from decimal_year_to_date_within_year [OF range] obtain date
    where "decimal_year_to_date (Fin (20235 / 10)) = Inr date"
      and "days_from_civil \<lfloor>20235 / 10 :: rat\<rfloor> 1 1 \<le> date"
      and "date \<le> days_from_civil (\<lfloor>20235 / 10 :: rat\<rfloor> + 1) 1 1"
    by blast
  with val have "days_from_civil 2023 1 1 \<le> days_from_civil 2023 7 3"
    "days_from_civil 2023 7 3 \<le> days_from_civil 2024 1 1"
    unfolding fl by simp_all
  with range val show ?thesis by blast
qed

section \<open>Properties of the cleaned frame\<close>

lemma length_fill_co2 [simp]: "length (fill_co2 xs) = length xs"
  by (simp add: fill_co2_def ffill_def)







section \<open>Properties of the forecast endpoint\<close>

text \<open>
  Claim C3, as stated, asks for \<open>steps \<ge> 1\<close> on every accepted request. The schema
  declares a plain integer: a body with \<open>steps = 0\<close> is accepted as it is.
\<close>

theorem ForecastQuery_steps_unchecked: "\<not> 1 \<le> steps (ForecastQuery (Some 0))"
  by (simp add: ForecastQuery_def)

text \<open>
  Claim C3, amended. The \<open>steps\<close> field is an integer that defaults to 12 when the
  body leaves it out, and a body without it is processed with \<open>steps = 12\<close>; an
  integer that the body supplies is taken unchanged, whatever its sign.
\<close>

theorem ForecastQuery_steps_default:
  "steps (ForecastQuery None) = 12
   \<and> steps (ForecastQuery (Some n)) = n
   \<and> fst (get_forecast (Some m) (ForecastQuery None)) = [12]"
  by (simp add: ForecastQuery_def get_forecast_def model_get_forecast_def)

text \<open>
  Claim C6. While the model reference is unset, every request fails with status 503
  and the model's forecast operation is not called. Once the reference is set, the
  operation is called exactly once, with the request's \<open>steps\<close>; the outcome is never
  the 503 failure and is decided by what the model answers to that call: its
  exception becomes the 500 failure, and its series becomes the formatted response
  (or the 500 failure when formatting raises). A model that answers alike at the
  request's \<open>steps\<close> gives the same result.
\<close>

theorem get_forecast_not_ready:
  "get_forecast None query = ([], Inl (HTTPException 503 ''Model is not loaded or ready.''))
   \<and> fst (get_forecast (Some m) query) = [steps query]
   \<and> snd (get_forecast (Some m) query) \<noteq> Inl (HTTPException 503 d)
   \<and> (m (steps query) = Inl e \<longrightarrow>
         snd (get_forecast (Some m) query) = Inl (HTTPException 500 (''Prediction error: '' @ e)))
   \<and> (m (steps query) = Inr series \<longrightarrow> format_forecast series = Inr result \<longrightarrow>
         snd (get_forecast (Some m) query) = Inr result)
   \<and> (m (steps query) = Inr series \<longrightarrow> format_forecast series = Inl e \<longrightarrow>
         snd (get_forecast (Some m) query) = Inl (HTTPException 500 (''Prediction error: '' @ e)))
   \<and> (m' (steps query) = m (steps query) \<longrightarrow>
         get_forecast (Some m') query = get_forecast (Some m) query)"
proof -
  have unset: "get_forecast None query =
      ([], Inl (HTTPException 503 ''Model is not loaded or ready.''))"
    by (simp add: get_forecast_def)
  have called: "fst (get_forecast (Some m) query) = [steps query]"
    by (simp add: get_forecast_def model_get_forecast_def)
  have not503: "snd (get_forecast (Some m) query) \<noteq> Inl (HTTPException 503 d)"
    by (simp add: get_forecast_def model_get_forecast_def split: sum.splits)
  have raised: "snd (get_forecast (Some m) query) =
      Inl (HTTPException 500 (''Prediction error: '' @ e))"
    if "m (steps query) = Inl e"
    using that by (simp add: get_forecast_def model_get_forecast_def)
  have answered: "snd (get_forecast (Some m) query) = Inr result"
    if "m (steps query) = Inr series" and "format_forecast series = Inr result"
    using that by (simp add: get_forecast_def model_get_forecast_def)
  have unformatted: "snd (get_forecast (Some m) query) =
      Inl (HTTPException 500 (''Prediction error: '' @ e))"
    if "m (steps query) = Inr series" and "format_forecast series = Inl e"
    using that by (simp add: get_forecast_def model_get_forecast_def)
  have same: "get_forecast (Some m') query = get_forecast (Some m) query"
    if "m' (steps query) = m (steps query)"
    unfolding get_forecast_def model_get_forecast_def option.case that ..
  from unset called not503 raised answered unformatted same show ?thesis by blast
qed

text \<open>
  C6 on a model that knows only a horizon of 12 months, asked with the default
  request: the response is the formatted series of the model.
\<close>

theorem get_forecast_not_ready_witness:
  "get_forecast None (ForecastQuery None) =
     ([], Inl (HTTPException 503 ''Model is not loaded or ready.''))
   \<and> fst (get_forecast (Some (\<lambda>n. if n = 12 then Inr [(19000, Some (Fin 420))] else Inl ''horizon''))
            (ForecastQuery None)) = [12]
   \<and> (\<exists>result. format_forecast [(19000, Some (Fin 420))] = Inr result
        \<and> snd (get_forecast (Some (\<lambda>n. if n = 12 then Inr [(19000, Some (Fin 420))] else Inl ''horizon''))
                 (ForecastQuery None)) = Inr result)
   \<and> snd (get_forecast (Some (\<lambda>n. if n = 12 then Inr [(19000, Some (Fin 420))] else Inl ''horizon''))
            (ForecastQuery (Some 6))) = Inl (HTTPException 500 ''Prediction error: horizon'')"
proof -
  let ?m = "\<lambda>n :: int. if n = 12 then Inr [(19000, Some (Fin 420))] else Inl ''horizon''
              :: string + (int \<times> float64) list"
  obtain result where fmt: "format_forecast [(19000, Some (Fin 420))] = Inr result"
    by (simp add: format_forecast_def)
  have q12: "steps (ForecastQuery None) = 12" and q6: "steps (ForecastQuery (Some 6)) = 6"
    by (simp_all add: ForecastQuery_def)
  have at12: "?m (steps (ForecastQuery None)) = Inr [(19000, Some (Fin 420))]"
    unfolding q12 by simp
  have at6: "?m (steps (ForecastQuery (Some 6))) = Inl ''horizon''"
    unfolding q6 by simp
  note default =
    get_forecast_not_ready [where m = ?m and m' = ?m and query = "ForecastQuery None"
      and series = "[(19000, Some (Fin 420))]" and result = result
      and e = "''horizon''" and d = "[]"]
  note six =
    get_forecast_not_ready [where m = ?m and m' = ?m and query = "ForecastQuery (Some 6)"
      and series = "[(19000, Some (Fin 420))]" and result = result
      and e = "''horizon''" and d = "[]"]
  have unset: "get_forecast None (ForecastQuery None) =
     ([], Inl (HTTPException 503 ''Model is not loaded or ready.''))"
    by (rule default [THEN conjunct1])
  have "fst (get_forecast (Some ?m) (ForecastQuery None)) = [steps (ForecastQuery None)]"
    by (rule default [THEN conjunct2, THEN conjunct1])
  then have called: "fst (get_forecast (Some ?m) (ForecastQuery None)) = [12]"
    unfolding q12 .
  have answered: "snd (get_forecast (Some ?m) (ForecastQuery None)) = Inr result"
    by (rule default [THEN conjunct2, THEN conjunct2, THEN conjunct2, THEN conjunct2,
          THEN conjunct1, rule_format, OF at12 fmt])
  have raised: "snd (get_forecast (Some ?m) (ForecastQuery (Some 6))) =
      Inl (HTTPException 500 (''Prediction error: '' @ ''horizon''))"
    by (rule six [THEN conjunct2, THEN conjunct2, THEN conjunct2, THEN conjunct1,
          rule_format, OF at6])
  then have raised': "snd (get_forecast (Some ?m) (ForecastQuery (Some 6))) =
      Inl (HTTPException 500 ''Prediction error: horizon'')"
    by simp
  from fmt answered have "\<exists>result. format_forecast [(19000, Some (Fin 420))] = Inr result
        \<and> snd (get_forecast (Some ?m) (ForecastQuery None)) = Inr result"
    by (intro exI conjI)
  with unset called raised' show ?thesis by (intro conjI)
qed

text \<open>
  Claim C8. When the model reference is set and the model's forecast operation raises
  an exception with message \<open>e\<close>, the request fails with status 500 and the detail
  \<open>Prediction error: e\<close>.
\<close>

theorem get_forecast_prediction_error:
  assumes "m (steps query) = Inl e"
  shows "get_forecast (Some m) query =
           ([steps query], Inl (HTTPException 500 (''Prediction error: '' @ e)))"
  using assms by (simp add: get_forecast_def model_get_forecast_def)

text \<open>C8 on a model that rejects a horizon below one, asked for zero steps.\<close>

theorem get_forecast_prediction_error_witness:
  "get_forecast (Some (\<lambda>n. if n < 1 then Inl ''steps must be positive'' else Inr []))
       (ForecastQuery (Some 0))
     = ([0], Inl (HTTPException 500 ''Prediction error: steps must be positive''))"
proof -
  let ?m = "\<lambda>n :: int. if n < 1 then Inl ''steps must be positive'' else Inr []"
  have "?m (steps (ForecastQuery (Some 0))) = Inl ''steps must be positive''"
    by (simp add: ForecastQuery_def)
  from get_forecast_prediction_error [of ?m "ForecastQuery (Some 0)", OF this]
  show ?thesis by (simp add: ForecastQuery_def)
qed

section \<open>Properties of the forecast response\<close>

lemma get_forecast_success:
  assumes "snd (get_forecast (Some m) query) = Inr result"
  shows "\<exists>series. m (steps query) = Inr series \<and> format_forecast series = Inr result"
  using assms by (auto simp: get_forecast_def model_get_forecast_def split: sum.splits)

lemma fold_min_Min: "fold min ds (d :: int) = Min (set (d # ds))"
  by (simp only: Min.set_eq_fold)

lemma fold_max_Max: "fold max ds (d :: int) = Max (set (d # ds))"
  by (simp only: Max.set_eq_fold)

lemma format_forecast_success:
  assumes "format_forecast series = Inr result"
  shows "series \<noteq> []"
    and "predictions result =
           map_of (rev (map (\<lambda>(date, value). (strftime_ymd date, round2 value)) series))"
    and "forecast_start_date result = strftime_ymd (Min (fst ` set series))"
    and "forecast_end_date result = strftime_ymd (Max (fst ` set series))"
proof -
  from assms obtain d ds where dates: "map fst series = d # ds"
    by (cases "map fst series") (auto simp: format_forecast_def Let_def)
  then show "series \<noteq> []" by auto
  have result: "result =
      \<lparr>forecast_start_date = strftime_ymd (fold min ds d),
       forecast_end_date = strftime_ymd (fold max ds d),
       predictions = map_of (rev (map (\<lambda>(date, value). (strftime_ymd date, round2 value)) series))\<rparr>"
    using assms dates by (simp add: format_forecast_def Let_def)
  have "set (d # ds) = fst ` set series"
    using dates by (metis set_map)
  then have "fold min ds d = Min (fst ` set series)" "fold max ds d = Max (fst ` set series)"
    by (simp_all only: fold_min_Min fold_max_Max)
  with result show
    "forecast_start_date result = strftime_ymd (Min (fst ` set series))"
    "forecast_end_date result = strftime_ymd (Max (fst ` set series))"
    by simp_all
  from result show "predictions result =
           map_of (rev (map (\<lambda>(date, value). (strftime_ymd date, round2 value)) series))"
    by simp
qed

lemma round2_two_decimals:
  "\<exists>k :: int. round2 (Some (Fin x)) = Some (Fin (of_int k / 100))
      \<and> \<bar>of_int k / 100 - x\<bar> \<le> 1 / 200"
proof -
  let ?k = "round_half_even (x * 100)"
  have "\<bar>of_int ?k - x * 100\<bar> \<le> 1 / 2" by (rule round_half_even_nearest)
  then have "\<bar>of_int ?k / 100 - x\<bar> \<le> 1 / 200" by (simp add: abs_le_iff field_simps)
  then show ?thesis by (auto simp: round2_def)
qed

lemma predictions_keys:
  "dom (map_of (rev (map (\<lambda>(date, value). (strftime_ymd date, round2 value)) series)))
     = strftime_ymd ` fst ` set series"
  by (force simp: dom_map_of_conv_image_fst image_iff)

text \<open>
  Claim C7. In a successful response every entry of \<open>predictions\<close> is a value of the
  model's series rounded to two decimal places, stored under the ISO date string of
  its date; every date of the series is a key; and when no two dates share a string,
  each date maps to its own rounded value. The rounded value is a whole number of
  hundredths at most half a hundredth away from the model's value.
\<close>

theorem get_forecast_predictions_rounded:
  assumes "snd (get_forecast (Some m) query) = Inr result"
  shows "\<exists>series. m (steps query) = Inr series
     \<and> (\<forall>key v. predictions result key = Some v \<longrightarrow>
           (\<exists>date value. (date, value) \<in> set series \<and> key = strftime_ymd date \<and> v = round2 value))
     \<and> (\<forall>date value. (date, value) \<in> set series \<longrightarrow>
           strftime_ymd date \<in> dom (predictions result))
     \<and> (distinct (map (strftime_ymd \<circ> fst) series) \<longrightarrow>
           (\<forall>date value. (date, value) \<in> set series \<longrightarrow>
              predictions result (strftime_ymd date) = Some (round2 value)))
     \<and> (\<forall>x. \<exists>k :: int. round2 (Some (Fin x)) = Some (Fin (of_int k / 100))
            \<and> \<bar>of_int k / 100 - x\<bar> \<le> 1 / 200)"
proof -
  from get_forecast_success [OF assms] obtain series
    where model: "m (steps query) = Inr series" and fmt: "format_forecast series = Inr result"
    by blast
  let ?items = "map (\<lambda>(date, value). (strftime_ymd date, round2 value)) series"
  have pred: "predictions result = map_of (rev ?items)"
    by (rule format_forecast_success(2) [OF fmt])
  have from_series: "\<exists>date value. (date, value) \<in> set series \<and> key = strftime_ymd date \<and> v = round2 value"
    if "predictions result key = Some v" for key v
  proof -
    from that pred have "map_of (rev ?items) key = Some v" by simp
    then have "(key, v) \<in> set (rev ?items)" by (rule map_of_SomeD)
    then show ?thesis by auto
  qed
  have keys: "strftime_ymd date \<in> dom (predictions result)"
    if "(date, x) \<in> set series" for date x
    using that unfolding pred predictions_keys by force
  have exact: "predictions result (strftime_ymd date) = Some (round2 x)"
    if dist: "distinct (map (strftime_ymd \<circ> fst) series)" and mem: "(date, x) \<in> set series"
    for date x
  proof -
    have "map fst (rev ?items) = rev (map (strftime_ymd \<circ> fst) series)"
      by (simp add: rev_map case_prod_beta comp_def)
    with dist have "distinct (map fst (rev ?items))" by simp
    moreover from mem have "(strftime_ymd date, round2 x) \<in> set (rev ?items)" by force
    ultimately show ?thesis unfolding pred by (rule map_of_is_SomeI)
  qed
  from model from_series keys exact round2_two_decimals show ?thesis by blast
qed

text \<open>
  Claim C10. In a successful response the keys of \<open>predictions\<close> are the ISO date
  strings of the dates of the model's series, \<open>forecast_start_date\<close> is the string of
  the earliest of these dates and \<open>forecast_end_date\<close> that of the latest, and both
  are keys of \<open>predictions\<close>.
\<close>

theorem get_forecast_start_end_dates:
  assumes "snd (get_forecast (Some m) query) = Inr result"
  shows "\<exists>series. m (steps query) = Inr series \<and> series \<noteq> []
     \<and> dom (predictions result) = strftime_ymd ` fst ` set series
     \<and> forecast_start_date result = strftime_ymd (Min (fst ` set series))
     \<and> forecast_end_date result = strftime_ymd (Max (fst ` set series))
     \<and> forecast_start_date result \<in> dom (predictions result)
     \<and> forecast_end_date result \<in> dom (predictions result)"
proof -
  from get_forecast_success [OF assms] obtain series
    where model: "m (steps query) = Inr series" and fmt: "format_forecast series = Inr result"
    by blast
  note facts = format_forecast_success [OF fmt]
  have keys: "dom (predictions result) = strftime_ymd ` fst ` set series"
    unfolding facts(2) by (rule predictions_keys)
  have fin: "finite (fst ` set series)" "fst ` set series \<noteq> {}"
    using facts(1) by simp_all
  have "Min (fst ` set series) \<in> fst ` set series"
    using fin by (rule Min_in)
  moreover have "Max (fst ` set series) \<in> fst ` set series"
    using fin by (rule Max_in)
  ultimately have "forecast_start_date result \<in> dom (predictions result)"
    "forecast_end_date result \<in> dom (predictions result)"
    unfolding keys facts(3) facts(4) by blast+
  with model facts keys show ?thesis by blast
qed


text \<open>C7 on a two-month forecast with one NaN.\<close>

theorem get_forecast_predictions_rounded_witness:
  "\<exists>result.
      snd (get_forecast (Some (\<lambda>n. Inr [(19000, Some (Fin (31234567 / 100000))), (19031, None)]))
             (ForecastQuery None)) = Inr result
      \<and> predictions result ''2022-01-08'' = Some (Some (Fin (31235 / 100)))
      \<and> predictions result ''2022-02-08'' = Some None"
proof -
  let ?series = "[(19000, Some (Fin (31234567 / 100000))), (19031, None)] :: (int \<times> float64) list"
  let ?m = "\<lambda>n :: int. Inr ?series :: string + (int \<times> float64) list"
  let ?q = "ForecastQuery None"
  have d1: "strftime_ymd 19000 = ''2022-01-08''" by code_simp
  have d2: "strftime_ymd 19031 = ''2022-02-08''" by code_simp
  have r1: "round2 (Some (Fin (31234567 / 100000))) = Some (Fin (31235 / 100))" by code_simp
  have r2: "round2 None = None" by (simp add: round2_def)
  obtain result where res: "snd (get_forecast (Some ?m) ?q) = Inr result"
    by (simp add: get_forecast_def model_get_forecast_def format_forecast_def)
  from get_forecast_predictions_rounded [OF res] obtain series
    where model: "?m (steps ?q) = Inr series"
      and exact: "distinct (map (strftime_ymd \<circ> fst) series) \<longrightarrow>
           (\<forall>date v. (date, v) \<in> set series \<longrightarrow>
              predictions result (strftime_ymd date) = Some (round2 v))"
    by blast
  from model have series: "series = ?series" by simp
  have "distinct (map (strftime_ymd \<circ> fst) series)"
    unfolding series by (simp add: d1 d2)
  with exact have all: "\<forall>date v. (date, v) \<in> set series \<longrightarrow>
              predictions result (strftime_ymd date) = Some (round2 v)"
    by blast
  have "predictions result (strftime_ymd 19000) = Some (round2 (Some (Fin (31234567 / 100000))))"
    using all unfolding series by simp
  moreover have "predictions result (strftime_ymd 19031) = Some (round2 None)"
    using all unfolding series by simp
  ultimately show ?thesis using res by (auto simp: d1 d2 r1 r2)
qed

text \<open>C10 on a three-month forecast whose series is not in date order.\<close>

theorem get_forecast_start_end_dates_witness:
  "\<exists>result.
      snd (get_forecast (Some (\<lambda>n. Inr [(19031, Some (Fin 420)), (19000, Some (Fin 419)), (19059, Some (Fin 421))]))
             (ForecastQuery (Some 3))) = Inr result
      \<and> forecast_start_date result = ''2022-01-08''
      \<and> forecast_end_date result = ''2022-03-08''"
proof -
  let ?series = "[(19031, Some (Fin 420)), (19000, Some (Fin 419)), (19059, Some (Fin 421))] :: (int \<times> float64) list"
  let ?m = "\<lambda>n :: int. Inr ?series :: string + (int \<times> float64) list"
  let ?q = "ForecastQuery (Some 3)"
  have d1: "strftime_ymd 19000 = ''2022-01-08''" by code_simp
  have d3: "strftime_ymd 19059 = ''2022-03-08''" by code_simp
  obtain result where res: "snd (get_forecast (Some ?m) ?q) = Inr result"
    by (simp add: get_forecast_def model_get_forecast_def format_forecast_def)
  from get_forecast_start_end_dates [OF res] obtain series
    where model: "?m (steps ?q) = Inr series"
      and first: "forecast_start_date result = strftime_ymd (Min (fst ` set series))"
      and last: "forecast_end_date result = strftime_ymd (Max (fst ` set series))"
    by blast
  from model have series: "series = ?series" by simp
  have "Min (fst ` set series) = 19000" "Max (fst ` set series) = 19059"
    unfolding series by simp_all
  with first last res show ?thesis by (auto simp: d1 d3)
qed

section \<open>The month-start reindexing\<close>

text \<open>
  Claim C2 expects one cleaned observation from a table whose single data row holds
  \<open>1960.042\<close> and \<open>316.97\<close>. The cleaned frame does hold that one row, dated
  16 January 1960. The series indexed by it has no month start between its smallest
  and largest date, so \<^verbatim>\<open>asfreq('MS')\<close> returns an empty series and the function
  raises in its closing \<^verbatim>\<open>print\<close> instead of returning.
\<close>

theorem load_and_prep_data_single_row_raises:
  "load_and_prep_data
     [[''Monthly CO2''],
      [''Yr'', ''Mn'', ''Excel'', ''Date'', ''CO2''],
      [''1960'', ''01'', ''21930'', ''1960.042'', ''316.97'']]
     = Inl (ValueError ''NaTType does not support strftime'')
   \<and> clean_frame (coerce [(''1960.042'', ''316.97'')])
     = Inr [\<lparr>Date_Decimal = Fin (1960042 / 1000), CO2_Raw_ppm = Some (Fin (31697 / 100)),
         CO2_ppm = Fin (31697 / 100), Date = days_from_civil 1960 1 16\<rparr>]
   \<and> asfreq_MS [(days_from_civil 1960 1 16, Fin (31697 / 100))] = Inr []"
proof -
  have day: "days_from_civil 1960 1 16 = - 3638" by code_simp
  have cols: "iloc_3_4 ([''Yr'', ''Mn'', ''Excel'', ''Date'', ''CO2''],
        [[''1960'', ''01'', ''21930'', ''1960.042'', ''316.97'']])
      = Inr [(''1960.042'', ''316.97'')]"
    by (simp add: iloc_3_4_def cell_def)
  have num: "coerce [(''1960.042'', ''316.97'')] = [(Some (Fin (980021 / 500)), Some (Fin (31697 / 100)))]"
    by (simp add: coerce_def to_numeric_def parse_number_def parse_exponent_def scale10_def
        is_digit_def is_space_def is_sign_def is_minus_def to_lower_def digits_value_def)
  have frame: "clean_frame [(Some (Fin (980021 / 500)), Some (Fin (31697 / 100)))]
      = Inr [\<lparr>Date_Decimal = Fin (980021 / 500), CO2_Raw_ppm = Some (Fin (31697 / 100)),
          CO2_ppm = Fin (31697 / 100), Date = - 3638\<rparr>]"
    by code_simp
  have ts: "asfreq_MS [(- 3638, Fin (31697 / 100))] = Inr []"
    by code_simp
  show ?thesis
    by (simp add: load_and_prep_data_def read_csv_header1_def is_blank_line_def
        cols num frame ts day)
qed

text \<open>
  Claim C1 expects a returned series without NaN and with one entry per distinct valid
  month. On a table with the two valid rows \<open>1960.042\<close> and \<open>1960.125\<close> (16 January
  and 16 February 1960) the function returns a series with the single entry
  1 February 1960, and its value is NaN: the reindexing to month starts comes after
  the fill and looks the values up by exact date.
\<close>

theorem load_and_prep_data_series_all_nan:
  "load_and_prep_data
     [[''Monthly CO2''],
      [''Yr'', ''Mn'', ''Excel'', ''Date'', ''CO2''],
      [''1960'', ''01'', ''21930'', ''1960.042'', ''316.97''],
      [''1960'', ''02'', ''21961'', ''1960.125'', ''317.00'']]
     = Inr ([(days_from_civil 1960 2 1, None)],
            [\<lparr>Date_Decimal = Fin (1960042 / 1000), CO2_Raw_ppm = Some (Fin (31697 / 100)),
               CO2_ppm = Fin (31697 / 100), Date = days_from_civil 1960 1 16\<rparr>,
             \<lparr>Date_Decimal = Fin (1960125 / 1000), CO2_Raw_ppm = Some (Fin 317),
               CO2_ppm = Fin 317, Date = days_from_civil 1960 2 16\<rparr>])"
proof -
  have day: "days_from_civil 1960 1 16 = - 3638" "days_from_civil 1960 2 16 = - 3607"
    "days_from_civil 1960 2 1 = - 3622"
    by code_simp+
  have cols: "iloc_3_4 ([''Yr'', ''Mn'', ''Excel'', ''Date'', ''CO2''],
        [[''1960'', ''01'', ''21930'', ''1960.042'', ''316.97''],
         [''1960'', ''02'', ''21961'', ''1960.125'', ''317.00'']])
      = Inr [(''1960.042'', ''316.97''), (''1960.125'', ''317.00'')]"
    by (simp add: iloc_3_4_def cell_def)
  have num: "coerce [(''1960.042'', ''316.97''), (''1960.125'', ''317.00'')]
      = [(Some (Fin (980021 / 500)), Some (Fin (31697 / 100))), (Some (Fin (15681 / 8)), Some (Fin 317))]"
    by (simp add: coerce_def to_numeric_def parse_number_def parse_exponent_def scale10_def
        is_digit_def is_space_def is_sign_def is_minus_def to_lower_def digits_value_def)
  have frame: "clean_frame
        [(Some (Fin (980021 / 500)), Some (Fin (31697 / 100))), (Some (Fin (15681 / 8)), Some (Fin 317))]
      = Inr [\<lparr>Date_Decimal = Fin (980021 / 500), CO2_Raw_ppm = Some (Fin (31697 / 100)),
          CO2_ppm = Fin (31697 / 100), Date = - 3638\<rparr>,
         \<lparr>Date_Decimal = Fin (15681 / 8), CO2_Raw_ppm = Some (Fin 317),
          CO2_ppm = Fin 317, Date = - 3607\<rparr>]"
    by code_simp
  have ts: "asfreq_MS [(- 3638, Fin (31697 / 100)), (- 3607, Fin 317)] = Inr [(- 3622, None)]"
    by code_simp
  show ?thesis
    by (simp add: load_and_prep_data_def read_csv_header1_def is_blank_line_def
        cols num frame ts day)
qed

end
